theory Spec2Isabelle
  imports Complex_Main "HOL-Library.Multiset" "HOL-Library.AList"
begin

section \<open>The book catalogue service of \<^verbatim>\<open>cmd/main.go\<close>\<close>

text \<open>
  The program is an HTTP front end over one MongoDB collection. The collection is modelled
  as the list of its documents in natural (insertion) order, every handler as a function
  from the request and the collection to the response and the new collection. What the
  program cannot decide itself is an explicit input: whether a round trip to the store is
  answered, the ObjectID that \<^verbatim>\<open>primitive.NewObjectID()\<close> draws, and the order in which
  Go ranges over a map. The driver and the web framework are libraries; their calls are
  modelled by what they do to a collection of \<^verbatim>\<open>BookStore\<close> documents, the only documents
  the program ever writes.
\<close>

subsection \<open>JSON values\<close>

text \<open>
  What \<^verbatim>\<open>encoding/json\<close> decodes into an \<^verbatim>\<open>interface{}\<close> and encodes from one. An object is
  kept as an association list; the order of its members carries no meaning.
\<close>

datatype json =
    JNull
  | JBool bool
  | JNumber real
  | JString string
  | JArray "json list"
  | JObject "(string \<times> json) list"

subsection \<open>The model: \<^verbatim>\<open>type BookStore struct\<close>\<close>

text \<open>
  A \<^verbatim>\<open>primitive.ObjectID\<close> is twelve bytes; it is identified here with its hexadecimal
  text, which is also how it is written to JSON. The zero value is \<^verbatim>\<open>primitive.NilObjectID\<close>.
\<close>

type_synonym ObjectID = string

definition NilObjectID :: ObjectID where
  "NilObjectID = ''000000000000000000000000''"

record BookStore =
  MongoID :: ObjectID
  ID :: string
  BookName :: string
  BookAuthor :: string
  BookEdition :: string
  BookPages :: string
  BookYear :: string

text \<open>
  The BSON names of the fields that \<^verbatim>\<open>$set\<close> addresses. The struct has no \<^verbatim>\<open>bson\<close> tag on
  them, so the driver stores each under its lower-cased Go name.
\<close>

datatype bson_field = bookname | bookauthor | bookedition | bookpages | bookyear

type_synonym collection = "BookStore list"

subsection \<open>Go slices that may be nil\<close>

text \<open>
  \<^verbatim>\<open>var ret []T\<close> declares a nil slice, \<^verbatim>\<open>append\<close> to it gives a slice that is not nil, and
  \<^verbatim>\<open>range\<close> over a nil slice runs no iteration. \<open>None\<close> is the nil slice.
\<close>

type_synonym 'a slice = "'a list option"

definition append_slice :: "'a slice \<Rightarrow> 'a \<Rightarrow> 'a slice" where
  "append_slice s x = (case s of None \<Rightarrow> Some [x] | Some xs \<Rightarrow> Some (xs @ [x]))"

definition range_slice :: "'a slice \<Rightarrow> 'a list" where
  "range_slice s = (case s of None \<Rightarrow> [] | Some xs \<Rightarrow> xs)"

subsection \<open>The document store\<close>

datatype mongo_error = ErrNoDocuments | ErrDuplicateKey | ErrConnection

text \<open>
  The environment of one request (or of one iteration of the seed loop): for each kind of
  store call whether its round trip is answered, and the identifiers generated meanwhile.
  No handler makes two calls of the same kind.
\<close>

record env =
  find_ok :: bool
  insert_ok :: bool
  update_ok :: bool
  delete_ok :: bool
  new_oid :: ObjectID
  driver_oid :: ObjectID

text \<open>The three filters of the program.\<close>

definition every_doc :: "BookStore \<Rightarrow> bool" where
  \<comment> \<open>\<^verbatim>\<open>bson.D{{}}\<close>\<close>
  "every_doc d = True"

definition by_id :: "string \<Rightarrow> BookStore \<Rightarrow> bool" where
  \<comment> \<open>\<^verbatim>\<open>bson.M{"id": idParam}\<close>\<close>
  "by_id i d = (ID d = i)"

definition by_example :: "BookStore \<Rightarrow> BookStore \<Rightarrow> bool" where
  \<comment> \<open>a \<^verbatim>\<open>BookStore\<close> value used as filter: \<^verbatim>\<open>_id\<close> is \<^verbatim>\<open>omitempty\<close>, the other six fields always take part\<close>
  "by_example b d =
     ((MongoID b = NilObjectID \<or> MongoID d = MongoID b) \<and> ID d = ID b \<and>
      BookName d = BookName b \<and> BookAuthor d = BookAuthor b \<and>
      BookEdition d = BookEdition b \<and> BookPages d = BookPages b \<and> BookYear d = BookYear b)"

definition Find :: "bool \<Rightarrow> (BookStore \<Rightarrow> bool) \<Rightarrow> collection \<Rightarrow> mongo_error + BookStore list" where
  \<comment> \<open>\<^verbatim>\<open>coll.Find\<close> followed by \<^verbatim>\<open>cursor.All\<close>\<close>
  "Find ok flt coll = (if ok then Inr (filter flt coll) else Inl ErrConnection)"

definition FindOne :: "bool \<Rightarrow> (BookStore \<Rightarrow> bool) \<Rightarrow> collection \<Rightarrow> mongo_error + BookStore" where
  \<comment> \<open>\<^verbatim>\<open>coll.FindOne(...).Decode(&b)\<close>\<close>
  "FindOne ok flt coll =
     (if \<not> ok then Inl ErrConnection
      else case List.find flt coll of None \<Rightarrow> Inl ErrNoDocuments | Some d \<Rightarrow> Inr d)"

definition InsertOne :: "bool \<Rightarrow> ObjectID \<Rightarrow> BookStore \<Rightarrow> collection \<Rightarrow> mongo_error + collection" where
  \<comment> \<open>the driver adds an \<^verbatim>\<open>_id\<close> to a document that has none; the store refuses a second document with the same \<^verbatim>\<open>_id\<close>\<close>
  "InsertOne ok gen b coll =
     (if \<not> ok then Inl ErrConnection
      else let d = (if MongoID b = NilObjectID then b\<lparr>MongoID := gen\<rparr> else b)
           in if MongoID d \<in> set (map MongoID coll) then Inl ErrDuplicateKey
              else Inr (coll @ [d]))"

fun set_field :: "bson_field \<Rightarrow> string \<Rightarrow> BookStore \<Rightarrow> BookStore" where
  "set_field bookname v d = d\<lparr>BookName := v\<rparr>"
| "set_field bookauthor v d = d\<lparr>BookAuthor := v\<rparr>"
| "set_field bookedition v d = d\<lparr>BookEdition := v\<rparr>"
| "set_field bookpages v d = d\<lparr>BookPages := v\<rparr>"
| "set_field bookyear v d = d\<lparr>BookYear := v\<rparr>"

fun apply_set :: "(bson_field \<times> string) list \<Rightarrow> BookStore \<Rightarrow> BookStore" where
  \<comment> \<open>\<^verbatim>\<open>{"$set": updateSet}\<close> on one document\<close>
  "apply_set [] d = d"
| "apply_set ((k, v) # kvs) d = apply_set kvs (set_field k v d)"

fun update_first :: "('a \<Rightarrow> bool) \<Rightarrow> ('a \<Rightarrow> 'a) \<Rightarrow> 'a list \<Rightarrow> 'a list" where
  "update_first p f [] = []"
| "update_first p f (x # xs) = (if p x then f x # xs else x # update_first p f xs)"

fun delete_first :: "('a \<Rightarrow> bool) \<Rightarrow> 'a list \<Rightarrow> 'a list" where
  "delete_first p [] = []"
| "delete_first p (x # xs) = (if p x then xs else x # delete_first p xs)"

text \<open>
  \<^verbatim>\<open>UpdateOne\<close> and \<^verbatim>\<open>DeleteOne\<close> act on the first document that matches. The number they
  return is \<^verbatim>\<open>MatchedCount\<close>, respectively \<^verbatim>\<open>DeletedCount\<close>. A call whose round trip fails
  leaves the collection as it was.
\<close>

definition UpdateOne ::
  "bool \<Rightarrow> (BookStore \<Rightarrow> bool) \<Rightarrow> (bson_field \<times> string) list \<Rightarrow> collection \<Rightarrow> mongo_error + nat \<times> collection" where
  "UpdateOne ok flt upd coll =
     (if \<not> ok then Inl ErrConnection
      else case List.find flt coll of
             None \<Rightarrow> Inr (0, coll)
           | Some d \<Rightarrow> Inr (1, update_first flt (apply_set upd) coll))"

definition DeleteOne :: "bool \<Rightarrow> (BookStore \<Rightarrow> bool) \<Rightarrow> collection \<Rightarrow> mongo_error + nat \<times> collection" where
  "DeleteOne ok flt coll =
     (if \<not> ok then Inl ErrConnection
      else case List.find flt coll of
             None \<Rightarrow> Inr (0, coll)
           | Some d \<Rightarrow> Inr (1, delete_first flt coll))"

subsection \<open>Responses\<close>

record response =
  status :: nat
  body :: "json option"

abbreviation StatusOK :: nat where "StatusOK \<equiv> 200"
abbreviation StatusCreated :: nat where "StatusCreated \<equiv> 201"
abbreviation StatusBadRequest :: nat where "StatusBadRequest \<equiv> 400"
abbreviation StatusNotFound :: nat where "StatusNotFound \<equiv> 404"
abbreviation StatusConflict :: nat where "StatusConflict \<equiv> 409"
abbreviation StatusInternalServerError :: nat where "StatusInternalServerError \<equiv> 500"

definition JSON :: "nat \<Rightarrow> json \<Rightarrow> response" where
  \<comment> \<open>\<^verbatim>\<open>c.JSON(code, v)\<close>, the value already encoded\<close>
  "JSON code v = \<lparr>status = code, body = Some v\<rparr>"

definition NoContent :: "nat \<Rightarrow> response" where
  "NoContent code = \<lparr>status = code, body = None\<rparr>"

definition error_map :: "string \<Rightarrow> json" where
  \<comment> \<open>\<^verbatim>\<open>map[string]string{"error": msg}\<close>\<close>
  "error_map msg = JObject [(''error'', JString msg)]"

definition book_json :: "BookStore \<Rightarrow> json" where
  \<comment> \<open>a \<^verbatim>\<open>BookStore\<close> under its \<^verbatim>\<open>json\<close> tags; \<^verbatim>\<open>omitempty\<close> never drops a twelve-byte array\<close>
  "book_json b = JObject
     [(''mongo_id'', JString (MongoID b)), (''id'', JString (ID b)),
      (''title'', JString (BookName b)), (''author'', JString (BookAuthor b)),
      (''edition'', JString (BookEdition b)), (''pages'', JString (BookPages b)),
      (''year'', JString (BookYear b))]"

definition slice_json :: "(string \<times> json) list slice \<Rightarrow> json" where
  \<comment> \<open>a \<^verbatim>\<open>[]map[string]interface{}\<close>: the nil slice is encoded as \<^verbatim>\<open>null\<close>\<close>
  "slice_json s = (case s of None \<Rightarrow> JNull | Some ms \<Rightarrow> JArray (map JObject ms))"

datatype crash = Panic | Fatal

subsection \<open>\<^verbatim>\<open>prepareData\<close>\<close>

definition startData :: "BookStore list" where
  "startData =
     [\<lparr>MongoID = NilObjectID, ID = ''example1'', BookName = ''The Vortex'',
       BookAuthor = ''Jos'' @ [CHR 0xC3, CHR 0x83, CHR 0xC2, CHR 0xA9] @ '' Eustasio Rivera'',
       BookEdition = ''958-30-0804-4'', BookPages = ''292'', BookYear = ''1924''\<rparr>,
      \<lparr>MongoID = NilObjectID, ID = ''example2'', BookName = ''Frankenstein'',
       BookAuthor = ''Mary Shelley'',
       BookEdition = ''978-3-649-64609-9'', BookPages = ''280'', BookYear = ''1818''\<rparr>,
      \<lparr>MongoID = NilObjectID, ID = ''example3'', BookName = ''The Black Cat'',
       BookAuthor = ''Edgar Allan Poe'',
       BookEdition = ''978-3-99168-238-7'', BookPages = ''280'', BookYear = ''1843''\<rparr>]"

definition seed_step :: "env \<Rightarrow> BookStore \<Rightarrow> collection \<Rightarrow> crash + collection" where
  \<comment> \<open>the body of the loop; a failed \<^verbatim>\<open>Find\<close> leaves a nil cursor, on which \<^verbatim>\<open>cursor.All\<close> panics\<close>
  "seed_step e book coll =
     (case Find (find_ok e) (by_example book) coll of
        Inl err \<Rightarrow> Inl Panic
      | Inr results \<Rightarrow>
          if length results > 1 then Inl Fatal
          else if length results = 0 then
            (case InsertOne (insert_ok e) (driver_oid e) book coll of
               Inl err \<Rightarrow> Inl Panic
             | Inr coll' \<Rightarrow> Inr coll')
          else Inr coll)"

fun seed_loop :: "(nat \<Rightarrow> env) \<Rightarrow> nat \<Rightarrow> BookStore list \<Rightarrow> collection \<Rightarrow> crash + collection" where
  "seed_loop es i [] coll = Inr coll"
| "seed_loop es i (book # rest) coll =
     (case seed_step (es i) book coll of
        Inl c \<Rightarrow> Inl c
      | Inr coll' \<Rightarrow> seed_loop es (Suc i) rest coll')"

definition prepareData :: "(nat \<Rightarrow> env) \<Rightarrow> collection \<Rightarrow> crash + collection" where
  \<comment> \<open>\<open>es i\<close> is the environment of the \<open>i\<close>-th iteration\<close>
  "prepareData es coll = seed_loop es 0 startData coll"

subsection \<open>\<^verbatim>\<open>findAllBooks\<close> and \<^verbatim>\<open>findAllAuthors\<close>\<close>

definition book_map :: "BookStore \<Rightarrow> (string \<times> json) list" where
  "book_map res =
     [(''id'', JString (ID res)), (''title'', JString (BookName res)),
      (''author'', JString (BookAuthor res)), (''pages'', JString (BookPages res)),
      (''edition'', JString (BookEdition res)), (''year'', JString (BookYear res))]"

definition findAllBooks :: "bool \<Rightarrow> collection \<Rightarrow> crash + (string \<times> json) list slice" where
  "findAllBooks ok coll =
     (case Find ok every_doc coll of
        Inl err \<Rightarrow> Inl Panic
      | Inr results \<Rightarrow> Inr (foldl (\<lambda>ret res. append_slice ret (book_map res)) None results))"

definition string_of :: "json option \<Rightarrow> string option" where
  \<comment> \<open>the type assertion \<^verbatim>\<open>m[k].(string)\<close>: \<open>None\<close> when the key is absent or holds another type\<close>
  "string_of v = (case v of Some (JString s) \<Rightarrow> Some s | _ \<Rightarrow> None)"

definition findAllAuthors ::
  "bool \<Rightarrow> (string list \<Rightarrow> string list) \<Rightarrow> collection \<Rightarrow> crash + (string \<times> json) list slice" where
  \<comment> \<open>\<open>order\<close> is the order in which the runtime ranges over the keys of \<^verbatim>\<open>uniqueAuthorsMap\<close>\<close>
  "findAllAuthors ok order coll =
     (case findAllBooks ok coll of
        Inl c \<Rightarrow> Inl c
      | Inr books \<Rightarrow>
          let uniqueAuthorsMap =
                foldl (\<lambda>m book. case string_of (map_of book ''author'') of
                                   Some author \<Rightarrow> AList.update author True m
                                 | None \<Rightarrow> m)
                      [] (range_slice books)
          in Inr (foldl (\<lambda>ret author. append_slice ret [(''AuthorName'', JString author)])
                        None (order (map fst uniqueAuthorsMap))))"

subsection \<open>The handlers of \<^verbatim>\<open>/api/books\<close>\<close>

definition get_books :: "env \<Rightarrow> collection \<Rightarrow> crash + response" where
  \<comment> \<open>\<^verbatim>\<open>e.GET("/api/books", ...)\<close>; no recover middleware is installed, a panic ends the request without a response\<close>
  "get_books e coll =
     (case findAllBooks (find_ok e) coll of
        Inl c \<Rightarrow> Inl c
      | Inr books \<Rightarrow> Inr (JSON StatusOK (slice_json books)))"

definition post_books :: "env \<Rightarrow> BookStore option \<Rightarrow> collection \<Rightarrow> response \<times> collection" where
  \<comment> \<open>\<^verbatim>\<open>e.POST("/api/books", ...)\<close>; the second argument is what \<^verbatim>\<open>c.Bind(book)\<close> leaves, \<open>None\<close> its error\<close>
  "post_books e bound coll =
     (case bound of
        None \<Rightarrow> (JSON StatusBadRequest (error_map ''Invalid request payload''), coll)
      | Some b \<Rightarrow>
          let book = b\<lparr>MongoID := new_oid e\<rparr> in
          if ID book = '''' then
            (JSON StatusInternalServerError (error_map ''Failed to create book''), coll)
          else
            (case FindOne (find_ok e) (by_id (ID book)) coll of
               Inr existingBook \<Rightarrow>
                 (JSON StatusConflict
                    (error_map (''Book with ID '' @ ID book @ '' already exists'')), coll)
             | Inl err \<Rightarrow>
                 if err \<noteq> ErrNoDocuments then
                   (JSON StatusInternalServerError
                      (error_map ''Failed to create book due to a database error''), coll)
                 else
                   (case InsertOne (insert_ok e) (driver_oid e) book coll of
                      Inl err \<Rightarrow>
                        (JSON StatusInternalServerError (error_map ''Failed to create book''), coll)
                    | Inr coll' \<Rightarrow> (JSON StatusCreated (book_json book), coll'))))"

definition build_updateSet :: "(string \<rightharpoonup> json) \<Rightarrow> (bson_field \<times> string) list" where
  \<comment> \<open>the five \<^verbatim>\<open>if v, ok := requestPayload[k].(string); ok\<close> statements, in their order\<close>
  "build_updateSet requestPayload =
     (let updateSet = [];
          updateSet = (case string_of (requestPayload ''title'') of
                         Some title \<Rightarrow> AList.update bookname title updateSet | None \<Rightarrow> updateSet);
          updateSet = (case string_of (requestPayload ''author'') of
                         Some author \<Rightarrow> AList.update bookauthor author updateSet | None \<Rightarrow> updateSet);
          updateSet = (case string_of (requestPayload ''edition'') of
                         Some edition \<Rightarrow> AList.update bookedition edition updateSet | None \<Rightarrow> updateSet);
          updateSet = (case string_of (requestPayload ''pages'') of
                         Some pages \<Rightarrow> AList.update bookpages pages updateSet | None \<Rightarrow> updateSet);
          updateSet = (case string_of (requestPayload ''year'') of
                         Some year \<Rightarrow> AList.update bookyear year updateSet | None \<Rightarrow> updateSet)
      in updateSet)"

definition put_books ::
  "env \<Rightarrow> string \<Rightarrow> (string \<rightharpoonup> json) option \<Rightarrow> collection \<Rightarrow> response \<times> collection" where
  \<comment> \<open>\<^verbatim>\<open>e.PUT("/api/books/:id", ...)\<close>; the third argument is the map that \<^verbatim>\<open>c.Bind\<close> leaves, \<open>None\<close> its error\<close>
  "put_books e idParam bound coll =
     (case bound of
        None \<Rightarrow> (JSON StatusBadRequest (error_map ''Invalid request payload''), coll)
      | Some requestPayload \<Rightarrow>
          let updateSet = build_updateSet requestPayload in
          if length updateSet = 0 then
            (JSON StatusBadRequest (error_map ''No valid fields provided for update''), coll)
          else
            (case UpdateOne (update_ok e) (by_id idParam) updateSet coll of
               Inl err \<Rightarrow>
                 (JSON StatusInternalServerError (error_map ''Failed to update book''), coll)
             | Inr (MatchedCount, coll') \<Rightarrow>
                 if MatchedCount = 0 then
                   (JSON StatusNotFound (error_map (''Book not found with ID '' @ idParam)), coll')
                 else
                   (case FindOne (find_ok e) (by_id idParam) coll' of
                      Inl err \<Rightarrow>
                        (JSON StatusInternalServerError
                           (error_map ''Failed to retrieve updated book details''), coll')
                    | Inr updatedBookFromDB \<Rightarrow>
                        (JSON StatusOK (book_json updatedBookFromDB), coll'))))"

definition delete_books :: "env \<Rightarrow> string \<Rightarrow> collection \<Rightarrow> response \<times> collection" where
  \<comment> \<open>\<^verbatim>\<open>e.DELETE("/api/books/:id", ...)\<close>\<close>
  "delete_books e idParam coll =
     (case DeleteOne (delete_ok e) (by_id idParam) coll of
        Inl err \<Rightarrow> (JSON StatusInternalServerError (error_map ''Failed to delete book''), coll)
      | Inr (DeletedCount, coll') \<Rightarrow>
          if DeletedCount = 0 then
            (JSON StatusNotFound (error_map (''Book not found with ID '' @ idParam)), coll')
          else (NoContent StatusOK, coll'))"

subsection \<open>Concrete inputs\<close>

text \<open>
  An environment in which every round trip is answered, a store as a first start leaves
  it, and a few requests; the closed theorems below are evaluated on them.
\<close>

definition quiet :: env where
  "quiet = \<lparr>find_ok = True, insert_ok = True, update_ok = True, delete_ok = True,
            new_oid = ''665f1c2ab3d4e5f60718293a'', driver_oid = ''665f1c2ab3d4e5f60718293b''\<rparr>"

definition first_start :: "nat \<Rightarrow> env" where
  "first_start i = quiet\<lparr>driver_oid :=
     (if i = 0 then ''665f1c2ab3d4e5f607182901''
      else if i = 1 then ''665f1c2ab3d4e5f607182902'' else ''665f1c2ab3d4e5f607182903'')\<rparr>"

definition vortex :: BookStore where
  "vortex =
     \<lparr>MongoID = ''665f1c2ab3d4e5f607182901'', ID = ''example1'', BookName = ''The Vortex'',
      BookAuthor = ''Jos'' @ [CHR 0xC3, CHR 0x83, CHR 0xC2, CHR 0xA9] @ '' Eustasio Rivera'',
      BookEdition = ''958-30-0804-4'', BookPages = ''292'', BookYear = ''1924''\<rparr>"

definition frankenstein :: BookStore where
  "frankenstein =
     \<lparr>MongoID = ''665f1c2ab3d4e5f607182902'', ID = ''example2'', BookName = ''Frankenstein'',
      BookAuthor = ''Mary Shelley'',
      BookEdition = ''978-3-649-64609-9'', BookPages = ''280'', BookYear = ''1818''\<rparr>"

definition black_cat :: BookStore where
  "black_cat =
     \<lparr>MongoID = ''665f1c2ab3d4e5f607182903'', ID = ''example3'', BookName = ''The Black Cat'',
      BookAuthor = ''Edgar Allan Poe'',
      BookEdition = ''978-3-99168-238-7'', BookPages = ''280'', BookYear = ''1843''\<rparr>"

definition seeded :: collection where
  "seeded = [vortex, frankenstein, black_cat]"

definition nameless :: BookStore where
  "nameless = \<lparr>MongoID = NilObjectID, ID = '''', BookName = ''Dune'',
               BookAuthor = ''Frank Herbert'', BookEdition = ''978-0-441-17271-9'',
               BookPages = ''612'', BookYear = ''1965''\<rparr>"

definition title_only :: "string \<rightharpoonup> json" where
  "title_only = [''title'' \<mapsto> JString ''New Title'']"

definition publisher_only :: "string \<rightharpoonup> json" where
  "publisher_only = [''publisher'' \<mapsto> JString ''X'']"

definition pages_number :: "string \<rightharpoonup> json" where
  "pages_number = [''pages'' \<mapsto> JNumber 100]"

definition year_and_publisher :: "string \<rightharpoonup> json" where
  "year_and_publisher = [''year'' \<mapsto> JString ''1831'', ''publisher'' \<mapsto> JString ''X'']"

definition second_start :: "nat \<Rightarrow> env" where
  "second_start i = quiet\<lparr>driver_oid := ''665f1c2ab3d4e5f607182904''\<rparr>"

definition la_voragine :: "string \<rightharpoonup> json" where
  "la_voragine = [''title'' \<mapsto> JString ''La Voragine'']"

text \<open>
  The store after a first start, a \<^verbatim>\<open>PUT\<close> that renames the first fixture, and a second
  start: the seed routine no longer finds the fixture and inserts it again, so two
  documents carry the id \<^verbatim>\<open>example1\<close> (see \<open>reseeded_reachable\<close>).
\<close>

definition reseeded :: collection where
  "reseeded =
     [vortex\<lparr>BookName := ''La Voragine''\<rparr>, frankenstein, black_cat,
      vortex\<lparr>MongoID := ''665f1c2ab3d4e5f607182904''\<rparr>]"

definition twins :: collection where
  "twins = [frankenstein, frankenstein\<lparr>MongoID := ''665f1c2ab3d4e5f607182904''\<rparr>]"

definition dune :: BookStore where
  "dune = nameless\<lparr>ID := ''example1''\<rparr>"

definition dracula :: BookStore where
  "dracula = \<lparr>MongoID = NilObjectID, ID = ''dracula'', BookName = ''Dracula'',
              BookAuthor = ''Bram Stoker'', BookEdition = ''978-0-14-143984-6'',
              BookPages = ''454'', BookYear = ''1897''\<rparr>"

definition three_books :: collection where
  "three_books =
     [\<lparr>MongoID = ''665f1c2ab3d4e5f6071829a1'', ID = ''b1'', BookName = ''Emma'',
       BookAuthor = ''A'', BookEdition = ''1'', BookPages = ''474'', BookYear = ''1815''\<rparr>,
      \<lparr>MongoID = ''665f1c2ab3d4e5f6071829a2'', ID = ''b2'', BookName = ''Ivanhoe'',
       BookAuthor = ''B'', BookEdition = ''1'', BookPages = ''401'', BookYear = ''1819''\<rparr>,
      \<lparr>MongoID = ''665f1c2ab3d4e5f6071829a3'', ID = ''b3'', BookName = ''Persuasion'',
       BookAuthor = ''A'', BookEdition = ''1'', BookPages = ''249'', BookYear = ''1817''\<rparr>]"

definition third_start :: "nat \<Rightarrow> env" where
  "third_start i = quiet\<lparr>driver_oid :=
     (if i = 0 then ''665f1c2ab3d4e5f607182905''
      else if i = 1 then ''665f1c2ab3d4e5f607182906'' else ''665f1c2ab3d4e5f607182907'')\<rparr>"

definition title_and_pages :: "string \<rightharpoonup> json" where
  "title_and_pages = [''title'' \<mapsto> JString ''New Title'', ''pages'' \<mapsto> JNumber 100]"

section \<open>Properties\<close>

subsection \<open>Lists and the update set\<close>

lemmas samples = quiet_def seeded_def vortex_def frankenstein_def black_cat_def

lemma find_filter_Nil: "List.find p xs = None \<longleftrightarrow> filter p xs = []"
  by (induction xs) auto

lemma find_Some_holds: "List.find p xs = Some d \<Longrightarrow> p d \<and> d \<in> set xs"
  by (induction xs) (auto split: if_splits)

lemma find_update_first:
  "List.find p xs = Some d \<Longrightarrow> p (f d) \<Longrightarrow> List.find p (update_first p f xs) = Some (f d)"
  by (induction xs) (auto split: if_splits)

lemma filter_delete_first:
  "length (filter p (delete_first p xs)) = length (filter p xs) - 1"
  by (induction xs) auto

lemma string_of_simps:
  "string_of None = None"
  "string_of (Some (JString s)) = Some s"
  "string_of (Some JNull) = None"
  "string_of (Some (JBool b)) = None"
  "string_of (Some (JNumber r)) = None"
  "string_of (Some (JArray js)) = None"
  "string_of (Some (JObject kvs)) = None"
  by (simp_all add: string_of_def)

lemma build_updateSet_empty_iff:
  "build_updateSet p = [] \<longleftrightarrow>
     string_of (p ''title'') = None \<and> string_of (p ''author'') = None \<and>
     string_of (p ''edition'') = None \<and> string_of (p ''pages'') = None \<and>
     string_of (p ''year'') = None"
  unfolding build_updateSet_def Let_def
  by (cases "string_of (p ''title'')"; cases "string_of (p ''author'')";
      cases "string_of (p ''edition'')"; cases "string_of (p ''pages'')";
      cases "string_of (p ''year'')"; simp)


subsection \<open>Creating a book\<close>

text \<open>
  What the handler does with an empty id, whatever the store holds: it answers before any
  store call and returns the collection as it was.
\<close>

lemma post_books_empty_id:
  "ID b = '''' \<Longrightarrow>
   post_books e (Some b) coll =
     (JSON StatusInternalServerError (error_map ''Failed to create book''), coll)"
  by (simp add: post_books_def)

text \<open>A body that does not bind, as one whose \<^verbatim>\<open>pages\<close> is a number, is answered 400.\<close>

lemma post_books_unbound:
  "post_books e None coll = (JSON StatusBadRequest (error_map ''Invalid request payload''), coll)"
  by (simp add: post_books_def)

text \<open>
  C1 at a body that binds and carries the empty \<^verbatim>\<open>id\<close>. The claim, like the handler's other
  validation answers (the \<^verbatim>\<open>Bind\<close> error above, the empty update set of \<^verbatim>\<open>PUT\<close>), calls
  for 400. The guard answers 500 with the message of a failed insert; nothing is
  inserted.
\<close>

theorem post_books_empty_id_500:
  "ID nameless = '''' \<and>
   post_books quiet (Some nameless) seeded =
     (JSON StatusInternalServerError (error_map ''Failed to create book''), seeded) \<and>
   status (fst (post_books quiet (Some nameless) seeded)) \<noteq> StatusBadRequest"
  by (simp add: post_books_def nameless_def JSON_def)

subsection \<open>Updating a book\<close>

lemma build_updateSet_cong:
  assumes "string_of (p ''title'') = string_of (q ''title'')"
    and "string_of (p ''author'') = string_of (q ''author'')"
    and "string_of (p ''edition'') = string_of (q ''edition'')"
    and "string_of (p ''pages'') = string_of (q ''pages'')"
    and "string_of (p ''year'') = string_of (q ''year'')"
  shows "build_updateSet p = build_updateSet q"
  using assms by (simp add: build_updateSet_def)

lemma put_books_cong:
  "build_updateSet p = build_updateSet q \<Longrightarrow>
   put_books e idParam (Some p) coll = put_books e idParam (Some q) coll"
  by (simp add: put_books_def)

lemma put_books_no_fields:
  "build_updateSet p = [] \<Longrightarrow>
   put_books e idParam (Some p) coll =
     (JSON StatusBadRequest (error_map ''No valid fields provided for update''), coll)"
  by (simp add: put_books_def)

lemma apply_build_updateSet:
  "apply_set (build_updateSet p) d =
     d\<lparr>BookName := (case string_of (p ''title'') of Some s \<Rightarrow> s | None \<Rightarrow> BookName d),
       BookAuthor := (case string_of (p ''author'') of Some s \<Rightarrow> s | None \<Rightarrow> BookAuthor d),
       BookEdition := (case string_of (p ''edition'') of Some s \<Rightarrow> s | None \<Rightarrow> BookEdition d),
       BookPages := (case string_of (p ''pages'') of Some s \<Rightarrow> s | None \<Rightarrow> BookPages d),
       BookYear := (case string_of (p ''year'') of Some s \<Rightarrow> s | None \<Rightarrow> BookYear d)\<rparr>"
  unfolding build_updateSet_def Let_def
  by (cases "string_of (p ''title'')"; cases "string_of (p ''author'')";
      cases "string_of (p ''edition'')"; cases "string_of (p ''pages'')";
      cases "string_of (p ''year'')"; simp)

lemma by_id_apply_set: "by_id i (apply_set kvs d) = by_id i d"
proof (induction kvs arbitrary: d)
  case Nil
  show ?case by simp
next
  case (Cons kv kvs)
  obtain k v where kv: "kv = (k, v)" by (cases kv)
  have "by_id i (set_field k v d) = by_id i d"
    by (cases k) (simp_all add: by_id_def)
  with Cons kv show ?case by simp
qed

lemma put_books_found:
  assumes "update_ok e" and "find_ok e"
    and "List.find (by_id idParam) coll = Some d" and "build_updateSet p \<noteq> []"
  shows "put_books e idParam (Some p) coll =
           (JSON StatusOK (book_json (apply_set (build_updateSet p) d)),
            update_first (by_id idParam) (apply_set (build_updateSet p)) coll)"
    and "List.find (by_id idParam) (update_first (by_id idParam) (apply_set (build_updateSet p)) coll) =
           Some (apply_set (build_updateSet p) d)"
proof -
  from assms(3) have "by_id idParam d" by (simp add: find_Some_holds)
  then have "by_id idParam (apply_set (build_updateSet p) d)" by (simp add: by_id_apply_set)
  with assms(3) show found:
    "List.find (by_id idParam) (update_first (by_id idParam) (apply_set (build_updateSet p)) coll) =
           Some (apply_set (build_updateSet p) d)"
    by (rule find_update_first)
  show "put_books e idParam (Some p) coll =
           (JSON StatusOK (book_json (apply_set (build_updateSet p) d)),
            update_first (by_id idParam) (apply_set (build_updateSet p)) coll)"
    using assms found by (simp add: put_books_def UpdateOne_def FindOne_def Let_def)
qed



text \<open>
  C4, as the code has it. A \<^verbatim>\<open>PUT /api/books/:id\<close> on an id that no document has, with a
  body in which at least one of \<^verbatim>\<open>title\<close>, \<^verbatim>\<open>author\<close>, \<^verbatim>\<open>edition\<close>, \<^verbatim>\<open>pages\<close>, \<^verbatim>\<open>year\<close> holds a
  JSON string, answered by the store: the response is 404 and the collection is the one
  before, document for document.
\<close>

theorem put_books_unknown_id:
  assumes "update_ok e" and "List.find (by_id idParam) coll = None"
    and "k \<in> {''title'', ''author'', ''edition'', ''pages'', ''year''}" and "p k = Some (JString s)"
  shows "put_books e idParam (Some p) coll =
           (JSON StatusNotFound (error_map (''Book not found with ID '' @ idParam)), coll)"
proof -
  have "string_of (p k) = Some s"
    using assms(4) by (simp add: string_of_simps)
  with assms(3) have "build_updateSet p \<noteq> []"
    unfolding build_updateSet_empty_iff by auto
  then show ?thesis
    using assms(1,2) by (simp add: put_books_def UpdateOne_def)
qed

theorem put_books_unknown_id_witness:
  "update_ok quiet \<and> List.find (by_id ''example9'') seeded = None \<and>
   ''title'' \<in> {''title'', ''author'', ''edition'', ''pages'', ''year''} \<and>
   title_only ''title'' = Some (JString ''New Title'') \<and>
   put_books quiet ''example9'' (Some title_only) seeded =
     (JSON StatusNotFound (error_map ''Book not found with ID example9''), seeded)"
  using put_books_unknown_id [of quiet "''example9''" seeded "''title''" title_only "''New Title''"]
  by (simp add: samples title_only_def by_id_def)

text \<open>
  A recognized key alone is not enough. The body \<^verbatim>\<open>{"pages": 100}\<close> names the recognized
  field \<^verbatim>\<open>pages\<close>, the id \<^verbatim>\<open>example9\<close> matches no document, and the response is 400, not 404:
  the check for an empty update set comes before the store is asked.
\<close>

theorem put_books_unknown_id_number:
  "List.find (by_id ''example9'') seeded = None \<and>
   pages_number ''pages'' = Some (JNumber 100) \<and>
   put_books quiet ''example9'' (Some pages_number) seeded =
     (JSON StatusBadRequest (error_map ''No valid fields provided for update''), seeded) \<and>
   status (fst (put_books quiet ''example9'' (Some pages_number) seeded)) \<noteq> StatusNotFound"
  by (simp add: put_books_def build_updateSet_def string_of_def pages_number_def by_id_def
      JSON_def samples)

text \<open>
  C5, as the code has it. Three facts about \<^verbatim>\<open>PUT /api/books/:id\<close>. First, a body \<open>p\<close> with
  none of the keys \<^verbatim>\<open>title\<close>, \<^verbatim>\<open>author\<close>, \<^verbatim>\<open>edition\<close>, \<^verbatim>\<open>pages\<close>, \<^verbatim>\<open>year\<close> is answered 400 and
  the collection, hence the addressed document, stays as it was. Second, unrecognized
  keys are ignored: adding a member under any other key to a body \<open>r\<close> changes neither the
  response nor the collection. Third, recognized keys holding a JSON string are applied:
  when the id addresses a document \<open>d\<close>, the store answers and at least one of the five
  keys holds a string in the body \<open>q\<close>, the response is 200 and the stored document has,
  for each of the five keys that holds a string in \<open>q\<close>, that string as the attribute,
  while every other attribute, \<open>ID\<close> and \<open>MongoID\<close> keep the value they had in \<open>d\<close>.
\<close>

theorem put_books_recognized_keys:
  "(p ''title'' = None \<and> p ''author'' = None \<and> p ''edition'' = None \<and> p ''pages'' = None \<and>
    p ''year'' = None \<longrightarrow>
      put_books e idParam (Some p) coll =
        (JSON StatusBadRequest (error_map ''No valid fields provided for update''), coll)) \<and>
   (k \<notin> {''title'', ''author'', ''edition'', ''pages'', ''year''} \<longrightarrow>
      put_books e idParam (Some (r(k \<mapsto> v))) coll = put_books e idParam (Some r) coll) \<and>
   (update_ok e \<and> find_ok e \<and> List.find (by_id idParam) coll = Some d \<and>
    k' \<in> {''title'', ''author'', ''edition'', ''pages'', ''year''} \<and> q k' = Some (JString s') \<longrightarrow>
      put_books e idParam (Some q) coll =
        (JSON StatusOK (book_json (apply_set (build_updateSet q) d)),
         update_first (by_id idParam) (apply_set (build_updateSet q)) coll) \<and>
      List.find (by_id idParam) (snd (put_books e idParam (Some q) coll)) =
        Some (apply_set (build_updateSet q) d) \<and>
      BookName (apply_set (build_updateSet q) d) =
        (case q ''title'' of Some (JString s) \<Rightarrow> s | _ \<Rightarrow> BookName d) \<and>
      BookAuthor (apply_set (build_updateSet q) d) =
        (case q ''author'' of Some (JString s) \<Rightarrow> s | _ \<Rightarrow> BookAuthor d) \<and>
      BookEdition (apply_set (build_updateSet q) d) =
        (case q ''edition'' of Some (JString s) \<Rightarrow> s | _ \<Rightarrow> BookEdition d) \<and>
      BookPages (apply_set (build_updateSet q) d) =
        (case q ''pages'' of Some (JString s) \<Rightarrow> s | _ \<Rightarrow> BookPages d) \<and>
      BookYear (apply_set (build_updateSet q) d) =
        (case q ''year'' of Some (JString s) \<Rightarrow> s | _ \<Rightarrow> BookYear d) \<and>
      ID (apply_set (build_updateSet q) d) = ID d \<and>
      MongoID (apply_set (build_updateSet q) d) = MongoID d)"
proof (intro conjI impI)
  assume "p ''title'' = None \<and> p ''author'' = None \<and> p ''edition'' = None \<and> p ''pages'' = None \<and>
    p ''year'' = None"
  then have "build_updateSet p = []"
    by (simp add: build_updateSet_empty_iff string_of_simps)
  then show "put_books e idParam (Some p) coll =
        (JSON StatusBadRequest (error_map ''No valid fields provided for update''), coll)"
    by (rule put_books_no_fields)
next
  assume "k \<notin> {''title'', ''author'', ''edition'', ''pages'', ''year''}"
  then have "build_updateSet (r(k \<mapsto> v)) = build_updateSet r"
    by (intro build_updateSet_cong) auto
  then show "put_books e idParam (Some (r(k \<mapsto> v))) coll = put_books e idParam (Some r) coll"
    by (rule put_books_cong)
next
  assume a: "update_ok e \<and> find_ok e \<and> List.find (by_id idParam) coll = Some d \<and>
    k' \<in> {''title'', ''author'', ''edition'', ''pages'', ''year''} \<and> q k' = Some (JString s')"
  then have "string_of (q k') = Some s'"
    by (simp add: string_of_simps)
  with a have ne: "build_updateSet q \<noteq> []"
    unfolding build_updateSet_empty_iff by auto
  with a show r: "put_books e idParam (Some q) coll =
        (JSON StatusOK (book_json (apply_set (build_updateSet q) d)),
         update_first (by_id idParam) (apply_set (build_updateSet q)) coll)"
    by (simp add: put_books_found(1))
  from a ne show "List.find (by_id idParam) (snd (put_books e idParam (Some q) coll)) =
        Some (apply_set (build_updateSet q) d)"
    using put_books_found(2) [of e idParam coll d q] by (simp add: r)
next
  show "BookName (apply_set (build_updateSet q) d) =
        (case q ''title'' of Some (JString s) \<Rightarrow> s | _ \<Rightarrow> BookName d)"
    by (simp add: apply_build_updateSet string_of_def split: option.splits json.splits)
next
  show "BookAuthor (apply_set (build_updateSet q) d) =
        (case q ''author'' of Some (JString s) \<Rightarrow> s | _ \<Rightarrow> BookAuthor d)"
    by (simp add: apply_build_updateSet string_of_def split: option.splits json.splits)
next
  show "BookEdition (apply_set (build_updateSet q) d) =
        (case q ''edition'' of Some (JString s) \<Rightarrow> s | _ \<Rightarrow> BookEdition d)"
    by (simp add: apply_build_updateSet string_of_def split: option.splits json.splits)
next
  show "BookPages (apply_set (build_updateSet q) d) =
        (case q ''pages'' of Some (JString s) \<Rightarrow> s | _ \<Rightarrow> BookPages d)"
    by (simp add: apply_build_updateSet string_of_def split: option.splits json.splits)
next
  show "BookYear (apply_set (build_updateSet q) d) =
        (case q ''year'' of Some (JString s) \<Rightarrow> s | _ \<Rightarrow> BookYear d)"
    by (simp add: apply_build_updateSet string_of_def split: option.splits json.splits)
next
  show "ID (apply_set (build_updateSet q) d) = ID d"
    by (simp add: apply_build_updateSet)
next
  show "MongoID (apply_set (build_updateSet q) d) = MongoID d"
    by (simp add: apply_build_updateSet)
qed

theorem put_books_recognized_keys_witness:
  "(publisher_only ''title'' = None \<and> publisher_only ''author'' = None \<and>
    publisher_only ''edition'' = None \<and> publisher_only ''pages'' = None \<and>
    publisher_only ''year'' = None) \<and>
   put_books quiet ''example2'' (Some publisher_only) seeded =
     (JSON StatusBadRequest (error_map ''No valid fields provided for update''), seeded) \<and>
   ''publisher'' \<notin> {''title'', ''author'', ''edition'', ''pages'', ''year''} \<and>
   put_books quiet ''example2'' (Some (title_only(''publisher'' \<mapsto> JString ''X''))) seeded =
     put_books quiet ''example2'' (Some title_only) seeded \<and>
   (update_ok quiet \<and> find_ok quiet \<and> List.find (by_id ''example2'') seeded = Some frankenstein \<and>
    ''year'' \<in> {''title'', ''author'', ''edition'', ''pages'', ''year''} \<and>
    year_and_publisher ''year'' = Some (JString ''1831'')) \<and>
   put_books quiet ''example2'' (Some year_and_publisher) seeded =
     (JSON StatusOK (book_json (frankenstein\<lparr>BookYear := ''1831''\<rparr>)),
      [vortex, frankenstein\<lparr>BookYear := ''1831''\<rparr>, black_cat])"
  using put_books_recognized_keys
    [where p = publisher_only and e = quiet and idParam = "''example2''" and coll = seeded
       and k = "''publisher''" and r = title_only and v = "JString ''X''" and d = frankenstein
       and k' = "''year''" and q = year_and_publisher and s' = "''1831''"]
  by (simp add: samples title_only_def publisher_only_def year_and_publisher_def by_id_def
        build_updateSet_def string_of_simps)

text \<open>
  A recognized key that holds another JSON type is not applied: with the body
  \<^verbatim>\<open>{"title": "New Title", "pages": 100}\<close> the title is written and \<^verbatim>\<open>pages\<close> stays 280.
\<close>

theorem put_books_number_not_applied:
  "title_and_pages ''title'' = Some (JString ''New Title'') \<and>
   title_and_pages ''pages'' = Some (JNumber 100) \<and>
   put_books quiet ''example2'' (Some title_and_pages) seeded =
     (JSON StatusOK (book_json (frankenstein\<lparr>BookName := ''New Title''\<rparr>)),
      [vortex, frankenstein\<lparr>BookName := ''New Title''\<rparr>, black_cat]) \<and>
   BookPages (frankenstein\<lparr>BookName := ''New Title''\<rparr>) = ''280''"
  by (simp add: put_books_def build_updateSet_def string_of_def title_and_pages_def
      UpdateOne_def FindOne_def by_id_def samples)

text \<open>
  C10. In \<^verbatim>\<open>PUT /api/books/:id\<close> a member whose value is not a JSON string counts as absent,
  whatever its key, and so does a member under a key outside the five names, whatever its
  value: either way the handler answers as it does for the body without that member. Hence
  a body in which none of the five names holds a string (as \<^verbatim>\<open>{"pages": 100}\<close>) is answered
  400 and the collection, with the addressed document, stays as it was.
\<close>

theorem put_books_non_string_value:
  "((\<forall>s. v \<noteq> JString s) \<longrightarrow>
      put_books e idParam (Some (p(k \<mapsto> v))) coll = put_books e idParam (Some (p(k := None))) coll) \<and>
   (k' \<notin> {''title'', ''author'', ''edition'', ''pages'', ''year''} \<longrightarrow>
      put_books e idParam (Some (p(k' \<mapsto> v'))) coll =
        put_books e idParam (Some (p(k' := None))) coll) \<and>
   ((\<forall>k \<in> {''title'', ''author'', ''edition'', ''pages'', ''year''}. \<forall>s. q k \<noteq> Some (JString s)) \<longrightarrow>
      put_books e idParam (Some q) coll =
        (JSON StatusBadRequest (error_map ''No valid fields provided for update''), coll))"
proof (intro conjI impI)
  assume "\<forall>s. v \<noteq> JString s"
  then have "string_of (Some v) = None"
    by (cases v) (simp_all add: string_of_simps)
  then have "build_updateSet (p(k \<mapsto> v)) = build_updateSet (p(k := None))"
    by (intro build_updateSet_cong) (simp_all add: string_of_simps)
  then show "put_books e idParam (Some (p(k \<mapsto> v))) coll =
      put_books e idParam (Some (p(k := None))) coll"
    by (rule put_books_cong)
next
  assume "k' \<notin> {''title'', ''author'', ''edition'', ''pages'', ''year''}"
  then have "build_updateSet (p(k' \<mapsto> v')) = build_updateSet (p(k' := None))"
    by (intro build_updateSet_cong) auto
  then show "put_books e idParam (Some (p(k' \<mapsto> v'))) coll =
      put_books e idParam (Some (p(k' := None))) coll"
    by (rule put_books_cong)
next
  assume a: "\<forall>k \<in> {''title'', ''author'', ''edition'', ''pages'', ''year''}. \<forall>s. q k \<noteq> Some (JString s)"
  have n: "string_of (q k) = None" if "k \<in> {''title'', ''author'', ''edition'', ''pages'', ''year''}" for k
  proof (cases "q k")
    case None
    then show ?thesis by (simp add: string_of_simps)
  next
    case (Some j)
    with a that have "\<forall>s. j \<noteq> JString s" by auto
    with Some show ?thesis by (cases j) (simp_all add: string_of_simps)
  qed
  have "build_updateSet q = []"
    unfolding build_updateSet_empty_iff by (simp add: n)
  then show "put_books e idParam (Some q) coll =
      (JSON StatusBadRequest (error_map ''No valid fields provided for update''), coll)"
    by (rule put_books_no_fields)
qed

theorem put_books_non_string_value_witness:
  "(\<forall>s. JNumber 100 \<noteq> JString s) \<and>
   put_books quiet ''example2'' (Some (title_only(''pages'' \<mapsto> JNumber 100))) seeded =
     put_books quiet ''example2'' (Some (title_only(''pages'' := None))) seeded \<and>
   ''publisher'' \<notin> {''title'', ''author'', ''edition'', ''pages'', ''year''} \<and>
   put_books quiet ''example2'' (Some (title_only(''publisher'' \<mapsto> JString ''X''))) seeded =
     put_books quiet ''example2'' (Some (title_only(''publisher'' := None))) seeded \<and>
   (\<forall>s. pages_number ''title'' \<noteq> Some (JString s)) \<and>
   (\<forall>s. pages_number ''author'' \<noteq> Some (JString s)) \<and>
   (\<forall>s. pages_number ''edition'' \<noteq> Some (JString s)) \<and>
   (\<forall>s. pages_number ''pages'' \<noteq> Some (JString s)) \<and>
   (\<forall>s. pages_number ''year'' \<noteq> Some (JString s)) \<and>
   put_books quiet ''example2'' (Some pages_number) seeded =
     (JSON StatusBadRequest (error_map ''No valid fields provided for update''), seeded)"
  using put_books_non_string_value
    [of "JNumber 100" quiet "''example2''" title_only "''pages''" seeded "''publisher''"
        "JString ''X''" pages_number]
  by (simp add: pages_number_def)

subsection \<open>Seeding\<close>

lemma seed_step_insert:
  assumes "find_ok e" and "insert_ok e" and "MongoID book = NilObjectID"
    and "filter (by_example book) coll = []" and "driver_oid e \<notin> set (map MongoID coll)"
  shows "seed_step e book coll = Inr (coll @ [book\<lparr>MongoID := driver_oid e\<rparr>])"
  using assms by (simp add: seed_step_def Find_def InsertOne_def)

lemma seed_step_keep:
  assumes "find_ok e" and "length (filter (by_example book) coll) = 1"
  shows "seed_step e book coll = Inr coll"
  using assms by (simp add: seed_step_def Find_def)

lemma seed_step_fatal:
  assumes "find_ok e" and "length (filter (by_example book) coll) > 1"
  shows "seed_step e book coll = Inl Fatal"
  using assms by (simp add: seed_step_def Find_def)

lemma seed_step_Inr:
  assumes "seed_step e g c = Inr c'"
  shows "length (filter (by_example g) c) = 1 \<and> c' = c \<or>
         filter (by_example g) c = [] \<and>
           c' = c @ [if MongoID g = NilObjectID then g\<lparr>MongoID := driver_oid e\<rparr> else g]"
proof -
  consider "filter (by_example g) c = []" | "length (filter (by_example g) c) = 1"
    | "length (filter (by_example g) c) > 1"
    by (cases "filter (by_example g) c") (auto simp: less_Suc_eq_0_disj)
  then show ?thesis
  proof cases
    case 1
    with assms show ?thesis
      by (auto simp: seed_step_def Find_def InsertOne_def Let_def split: if_splits)
  next
    case 2
    with assms show ?thesis
      by (auto simp: seed_step_def Find_def split: if_splits)
  next
    case 3
    with assms show ?thesis
      by (auto simp: seed_step_def Find_def split: if_splits)
  qed
qed

lemma by_example_self:
  "by_example g (if MongoID g = NilObjectID then g\<lparr>MongoID := x\<rparr> else g)"
  by (simp add: by_example_def)

lemma by_example_same:
  assumes "MongoID f = NilObjectID" and "MongoID g = NilObjectID"
    and "by_example f (if MongoID g = NilObjectID then g\<lparr>MongoID := x\<rparr> else g)"
  shows "by_example f = by_example g"
  using assms by (auto simp: by_example_def fun_eq_iff)

lemma seed_step_establishes:
  assumes "seed_step e g c = Inr c'"
  shows "length (filter (by_example g) c') = 1"
  using seed_step_Inr [OF assms] by (auto simp: by_example_self)

lemma seed_step_preserves:
  assumes "seed_step e g c = Inr c'"
    and "MongoID f = NilObjectID" and "MongoID g = NilObjectID"
    and "length (filter (by_example f) c) = 1"
  shows "length (filter (by_example f) c') = 1"
proof -
  from seed_step_Inr [OF assms(1)] show ?thesis
  proof (elim disjE conjE)
    assume "c' = c"
    with assms(4) show ?thesis by simp
  next
    let ?d = "if MongoID g = NilObjectID then g\<lparr>MongoID := driver_oid e\<rparr> else g"
    assume none: "filter (by_example g) c = []" and c': "c' = c @ [?d]"
    have "\<not> by_example f ?d"
    proof
      assume "by_example f ?d"
      with assms(2,3) have "by_example f = by_example g" by (rule by_example_same)
      with none assms(4) show False by simp
    qed
    with c' assms(4) show ?thesis by simp
  qed
qed

lemma seed_loop_preserves:
  assumes "seed_loop es i fs c = Inr c'"
    and "\<forall>g \<in> set fs. MongoID g = NilObjectID" and "MongoID f = NilObjectID"
    and "length (filter (by_example f) c) = 1"
  shows "length (filter (by_example f) c') = 1"
  using assms
proof (induction fs arbitrary: i c)
  case Nil
  then show ?case by simp
next
  case (Cons g fs)
  from Cons.prems(1) obtain c1 where
    step: "seed_step (es i) g c = Inr c1" and rest: "seed_loop es (Suc i) fs c1 = Inr c'"
    by (auto split: sum.splits)
  from step Cons.prems(2-4) have "length (filter (by_example f) c1) = 1"
    by (intro seed_step_preserves [of "es i" g c c1 f]) simp_all
  with rest Cons.prems(2,3) show ?case
    by (intro Cons.IH [of "Suc i" c1]) simp_all
qed

lemma seed_loop_establishes:
  assumes "seed_loop es i fs c = Inr c'"
    and "\<forall>g \<in> set fs. MongoID g = NilObjectID"
  shows "\<forall>f \<in> set fs. length (filter (by_example f) c') = 1"
  using assms
proof (induction fs arbitrary: i c)
  case Nil
  then show ?case by simp
next
  case (Cons g fs)
  from Cons.prems(1) obtain c1 where
    step: "seed_step (es i) g c = Inr c1" and rest: "seed_loop es (Suc i) fs c1 = Inr c'"
    by (auto split: sum.splits)
  from step have "length (filter (by_example g) c1) = 1"
    by (rule seed_step_establishes)
  with rest Cons.prems(2) have g: "length (filter (by_example g) c') = 1"
    by (intro seed_loop_preserves [of es "Suc i" fs c1 c' g]) simp_all
  from rest Cons.prems(2) have "\<forall>f \<in> set fs. length (filter (by_example f) c') = 1"
    by (intro Cons.IH [of "Suc i" c1]) simp_all
  with g show ?case by simp
qed

lemma seed_loop_fixed:
  assumes "\<forall>f \<in> set fs. length (filter (by_example f) c) = 1" and "\<forall>i. find_ok (es i)"
  shows "seed_loop es i fs c = Inr c"
  using assms by (induction fs arbitrary: i) (simp_all add: seed_step_keep)

lemma startData_no_id: "\<forall>g \<in> set startData. MongoID g = NilObjectID"
  by (simp add: startData_def)

lemma prepareData_again:
  assumes "prepareData es0 c0 = Inr c" and "\<forall>i. find_ok (es i)"
  shows "prepareData es c = Inr c"
proof -
  from assms(1) have "\<forall>f \<in> set startData. length (filter (by_example f) c) = 1"
    unfolding prepareData_def by (rule seed_loop_establishes) (rule startData_no_id)
  with assms(2) show ?thesis
    unfolding prepareData_def by (intro seed_loop_fixed)
qed

lemma prepareData_first_start: "prepareData first_start [] = Inr seeded"
  by (simp add: prepareData_def startData_def seed_step_def Find_def InsertOne_def
      by_example_def first_start_def quiet_def NilObjectID_def seeded_def vortex_def
      frankenstein_def black_cat_def)

lemma by_example_other_id: "ID g \<noteq> ID f \<Longrightarrow> \<not> by_example g (f\<lparr>MongoID := x\<rparr>)"
  by (auto simp: by_example_def)

lemma filter_by_example_snoc:
  "ID g \<noteq> ID f \<Longrightarrow>
   filter (by_example g) (c @ [f\<lparr>MongoID := x\<rparr>]) = filter (by_example g) c"
  by (simp add: by_example_other_id)

lemma seed_loop_run:
  assumes "distinct (map ID fs)" and "\<forall>f \<in> set fs. MongoID f = NilObjectID"
    and "\<forall>j. find_ok (es j) \<and> insert_ok (es j)"
    and "inj_on (\<lambda>j. driver_oid (es j)) {i..<i + length fs}"
    and "\<forall>j \<in> {i..<i + length fs}. driver_oid (es j) \<notin> set (map MongoID c)"
    and "\<forall>f \<in> set fs. length (filter (by_example f) c) \<le> 1"
  shows "\<exists>ins. seed_loop es i fs c = Inr (c @ ins) \<and>
           map (\<lambda>d. d\<lparr>MongoID := NilObjectID\<rparr>) ins = filter (\<lambda>f. filter (by_example f) c = []) fs"
  using assms
proof (induction fs arbitrary: i c)
  case Nil
  then show ?case by simp
next
  case (Cons f fs)
  have sub: "{Suc i..<Suc i + length fs} \<subseteq> {i..<i + length (f # fs)}" by auto
  have inj': "inj_on (\<lambda>j. driver_oid (es j)) {Suc i..<Suc i + length fs}"
    using Cons.prems(4) sub by (rule inj_on_subset)
  have nil: "MongoID f = NilObjectID" using Cons.prems(2) by simp
  have ok: "find_ok (es i)" "insert_ok (es i)" using Cons.prems(3) by simp_all
  have others: "\<forall>g \<in> set fs. ID g \<noteq> ID f"
  proof
    fix g assume "g \<in> set fs"
    then have "ID g \<in> ID ` set fs" by (rule imageI)
    moreover from Cons.prems(1) have "ID f \<notin> ID ` set fs" by simp
    ultimately show "ID g \<noteq> ID f" by metis
  qed
  show ?case
  proof (cases "filter (by_example f) c = []")
    case False
    with Cons.prems(6) have one: "length (filter (by_example f) c) = 1"
      by (cases "filter (by_example f) c") simp_all
    with ok have step: "seed_step (es i) f c = Inr c" by (simp add: seed_step_keep)
    from Cons.prems sub have "\<exists>ins. seed_loop es (Suc i) fs c = Inr (c @ ins) \<and>
           map (\<lambda>d. d\<lparr>MongoID := NilObjectID\<rparr>) ins = filter (\<lambda>f. filter (by_example f) c = []) fs"
      by (intro Cons.IH inj') auto
    with step False show ?thesis by simp
  next
    case True
    let ?d = "f\<lparr>MongoID := driver_oid (es i)\<rparr>"
    have "driver_oid (es i) \<notin> set (map MongoID c)" using Cons.prems(5) by simp
    with ok nil True have step: "seed_step (es i) f c = Inr (c @ [?d])"
      by (intro seed_step_insert) simp_all
    have same: "filter (by_example g) (c @ [?d]) = filter (by_example g) c" if "g \<in> set fs" for g
      using others that by (intro filter_by_example_snoc) simp
    have fresh': "\<forall>j \<in> {Suc i..<Suc i + length fs}. driver_oid (es j) \<notin> set (map MongoID (c @ [?d]))"
    proof
      fix j assume j: "j \<in> {Suc i..<Suc i + length fs}"
      then have "j \<in> {i..<i + length (f # fs)}" "i \<in> {i..<i + length (f # fs)}" "j \<noteq> i" by auto
      with Cons.prems(4) have "driver_oid (es j) \<noteq> driver_oid (es i)"
        by (auto dest: inj_onD)
      moreover from Cons.prems(5) j have "driver_oid (es j) \<notin> set (map MongoID c)" by auto
      ultimately show "driver_oid (es j) \<notin> set (map MongoID (c @ [?d]))" by simp
    qed
    have le': "\<forall>g \<in> set fs. length (filter (by_example g) (c @ [?d])) \<le> 1"
      using Cons.prems(6) same by simp
    from Cons.prems(1-3) have "\<exists>ins. seed_loop es (Suc i) fs (c @ [?d]) = Inr ((c @ [?d]) @ ins) \<and>
           map (\<lambda>d. d\<lparr>MongoID := NilObjectID\<rparr>) ins =
             filter (\<lambda>g. filter (by_example g) (c @ [?d]) = []) fs"
      by (intro Cons.IH inj' fresh' le') auto
    then obtain ins where run: "seed_loop es (Suc i) fs (c @ [?d]) = Inr ((c @ [?d]) @ ins)"
      and ins: "map (\<lambda>d. d\<lparr>MongoID := NilObjectID\<rparr>) ins =
             filter (\<lambda>g. filter (by_example g) (c @ [?d]) = []) fs"
      by blast
    have "filter (\<lambda>g. filter (by_example g) (c @ [?d]) = []) fs =
          filter (\<lambda>g. filter (by_example g) c = []) fs"
      by (rule filter_cong) (simp_all only: same)
    with ins have ins': "map (\<lambda>d. d\<lparr>MongoID := NilObjectID\<rparr>) (?d # ins) =
          filter (\<lambda>g. filter (by_example g) c = []) (f # fs)"
      using True nil by simp
    from step run have "seed_loop es i (f # fs) c = Inr (c @ (?d # ins))" by simp
    with ins' show ?thesis by blast
  qed
qed

lemma seed_loop_fatal:
  assumes "distinct (map ID fs)" and "\<forall>f \<in> set fs. MongoID f = NilObjectID"
    and "\<forall>j. find_ok (es j) \<and> insert_ok (es j)"
    and "inj_on (\<lambda>j. driver_oid (es j)) {i..<i + length fs}"
    and "\<forall>j \<in> {i..<i + length fs}. driver_oid (es j) \<notin> set (map MongoID c)"
    and "\<exists>f \<in> set fs. length (filter (by_example f) c) > 1"
  shows "seed_loop es i fs c = Inl Fatal"
  using assms
proof (induction fs arbitrary: i c)
  case Nil
  then show ?case by simp
next
  case (Cons f fs)
  have sub: "{Suc i..<Suc i + length fs} \<subseteq> {i..<i + length (f # fs)}" by auto
  have inj': "inj_on (\<lambda>j. driver_oid (es j)) {Suc i..<Suc i + length fs}"
    using Cons.prems(4) sub by (rule inj_on_subset)
  have nil: "MongoID f = NilObjectID" using Cons.prems(2) by simp
  have ok: "find_ok (es i)" "insert_ok (es i)" using Cons.prems(3) by simp_all
  have others: "\<forall>g \<in> set fs. ID g \<noteq> ID f"
  proof
    fix g assume "g \<in> set fs"
    then have "ID g \<in> ID ` set fs" by (rule imageI)
    moreover from Cons.prems(1) have "ID f \<notin> ID ` set fs" by simp
    ultimately show "ID g \<noteq> ID f" by metis
  qed
  consider "length (filter (by_example f) c) > 1" | "length (filter (by_example f) c) = 1"
    | "filter (by_example f) c = []"
    by (cases "filter (by_example f) c") (auto simp: less_Suc_eq_0_disj)
  then show ?case
  proof cases
    case 1
    with ok have "seed_step (es i) f c = Inl Fatal" by (simp add: seed_step_fatal)
    then show ?thesis by simp
  next
    case 2
    with ok have step: "seed_step (es i) f c = Inr c" by (simp add: seed_step_keep)
    from 2 Cons.prems(6) have bad: "\<exists>g \<in> set fs. length (filter (by_example g) c) > 1" by auto
    from Cons.prems(1-3,5) sub have "seed_loop es (Suc i) fs c = Inl Fatal"
      by (intro Cons.IH inj' bad) auto
    with step show ?thesis by simp
  next
    case 3
    let ?d = "f\<lparr>MongoID := driver_oid (es i)\<rparr>"
    have "driver_oid (es i) \<notin> set (map MongoID c)" using Cons.prems(5) by simp
    with ok nil 3 have step: "seed_step (es i) f c = Inr (c @ [?d])"
      by (intro seed_step_insert) simp_all
    have same: "filter (by_example g) (c @ [?d]) = filter (by_example g) c" if "g \<in> set fs" for g
      using others that by (intro filter_by_example_snoc) simp
    from 3 Cons.prems(6) have "\<exists>g \<in> set fs. length (filter (by_example g) c) > 1" by auto
    with same have bad: "\<exists>g \<in> set fs. length (filter (by_example g) (c @ [?d])) > 1" by auto
    have fresh': "\<forall>j \<in> {Suc i..<Suc i + length fs}. driver_oid (es j) \<notin> set (map MongoID (c @ [?d]))"
    proof
      fix j assume j: "j \<in> {Suc i..<Suc i + length fs}"
      then have "j \<in> {i..<i + length (f # fs)}" "i \<in> {i..<i + length (f # fs)}" "j \<noteq> i" by auto
      with Cons.prems(4) have "driver_oid (es j) \<noteq> driver_oid (es i)"
        by (auto dest: inj_onD)
      moreover from Cons.prems(5) j have "driver_oid (es j) \<notin> set (map MongoID c)" by auto
      ultimately show "driver_oid (es j) \<notin> set (map MongoID (c @ [?d]))" by simp
    qed
    from Cons.prems(1-3) have "seed_loop es (Suc i) fs (c @ [?d]) = Inl Fatal"
      by (intro Cons.IH inj' fresh' bad) auto
    with step show ?thesis by simp
  qed
qed

lemma startData_ids: "distinct (map ID startData)"
  by (simp add: startData_def)

text \<open>
  C6. \<^verbatim>\<open>prepareData\<close> as a whole, when the store answers its calls and the driver draws
  an unused \<^verbatim>\<open>_id\<close> for each iteration. The documents matching a fixture are those that
  equal it in all six attributes (\<open>by_example\<close>; a fixture has no \<^verbatim>\<open>_id\<close>, so none takes
  part). If some fixture has more than one match, the run ends in \<^verbatim>\<open>log.Fatal\<close>. If
  none has, the run appends exactly the fixtures with zero matches, in their order, each
  under a new \<^verbatim>\<open>_id\<close>, and touches nothing else; so with exactly one match for every
  fixture the collection is returned as it is. Hence idempotence: a store \<open>c\<close> that a
  completed run has left is returned unchanged by a further run, and so by the run after
  that one, whenever their \<^verbatim>\<open>Find\<close> calls are answered; in particular the number of
  documents stays the same.
\<close>

theorem prepareData_idempotent:
  "((\<forall>i. find_ok (esA i) \<and> insert_ok (esA i)) \<and>
    inj_on (\<lambda>i. driver_oid (esA i)) {0..<length startData} \<and>
    (\<forall>i \<in> {0..<length startData}. driver_oid (esA i) \<notin> set (map MongoID cA)) \<and>
    (\<exists>f \<in> set startData. length (filter (by_example f) cA) > 1) \<longrightarrow>
      prepareData esA cA = Inl Fatal) \<and>
   ((\<forall>i. find_ok (esB i) \<and> insert_ok (esB i)) \<and>
    inj_on (\<lambda>i. driver_oid (esB i)) {0..<length startData} \<and>
    (\<forall>i \<in> {0..<length startData}. driver_oid (esB i) \<notin> set (map MongoID cB)) \<and>
    (\<forall>f \<in> set startData. length (filter (by_example f) cB) \<le> 1) \<longrightarrow>
      (\<exists>ins. prepareData esB cB = Inr (cB @ ins) \<and>
         map (\<lambda>d. d\<lparr>MongoID := NilObjectID\<rparr>) ins =
           filter (\<lambda>f. filter (by_example f) cB = []) startData)) \<and>
   ((\<forall>i. find_ok (esC i)) \<and> (\<forall>f \<in> set startData. length (filter (by_example f) cC) = 1) \<longrightarrow>
      prepareData esC cC = Inr cC) \<and>
   (prepareData es0 c0 = Inr c \<and> (\<forall>i. find_ok (es i)) \<and> (\<forall>i. find_ok (es' i)) \<longrightarrow>
      prepareData es c = Inr c \<and> prepareData es' c = Inr c)"
proof (intro conjI impI)
  assume a: "(\<forall>i. find_ok (esA i) \<and> insert_ok (esA i)) \<and>
    inj_on (\<lambda>i. driver_oid (esA i)) {0..<length startData} \<and>
    (\<forall>i \<in> {0..<length startData}. driver_oid (esA i) \<notin> set (map MongoID cA)) \<and>
    (\<exists>f \<in> set startData. length (filter (by_example f) cA) > 1)"
  show "prepareData esA cA = Inl Fatal"
    unfolding prepareData_def
    using a by (intro seed_loop_fatal startData_ids startData_no_id) simp_all
next
  assume b: "(\<forall>i. find_ok (esB i) \<and> insert_ok (esB i)) \<and>
    inj_on (\<lambda>i. driver_oid (esB i)) {0..<length startData} \<and>
    (\<forall>i \<in> {0..<length startData}. driver_oid (esB i) \<notin> set (map MongoID cB)) \<and>
    (\<forall>f \<in> set startData. length (filter (by_example f) cB) \<le> 1)"
  show "\<exists>ins. prepareData esB cB = Inr (cB @ ins) \<and>
         map (\<lambda>d. d\<lparr>MongoID := NilObjectID\<rparr>) ins =
           filter (\<lambda>f. filter (by_example f) cB = []) startData"
    unfolding prepareData_def
    using b by (intro seed_loop_run startData_ids startData_no_id) simp_all
next
  assume "(\<forall>i. find_ok (esC i)) \<and> (\<forall>f \<in> set startData. length (filter (by_example f) cC) = 1)"
  then show "prepareData esC cC = Inr cC"
    unfolding prepareData_def by (intro seed_loop_fixed) simp_all
next
  assume a: "prepareData es0 c0 = Inr c \<and> (\<forall>i. find_ok (es i)) \<and> (\<forall>i. find_ok (es' i))"
  then show "prepareData es c = Inr c"
    by (intro prepareData_again [of es0 c0]) simp_all
  from a show "prepareData es' c = Inr c"
    by (intro prepareData_again [of es0 c0]) simp_all
qed

lemmas seed_eval = prepareData_def startData_def seed_step_def Find_def InsertOne_def
  by_example_def NilObjectID_def

theorem prepareData_idempotent_witness:
  "(\<forall>i. find_ok (third_start i) \<and> insert_ok (third_start i)) \<and>
   inj_on (\<lambda>i. driver_oid (third_start i)) {0..<length startData} \<and>
   driver_oid (third_start 0) \<notin> set (map MongoID twins) \<and>
   driver_oid (third_start 1) \<notin> set (map MongoID twins) \<and>
   driver_oid (third_start 2) \<notin> set (map MongoID twins) \<and>
   length (filter (by_example (startData ! 1)) twins) > 1 \<and>
   prepareData third_start twins = Inl Fatal \<and>
   driver_oid (third_start 0) \<notin> set (map MongoID [frankenstein, black_cat]) \<and>
   driver_oid (third_start 1) \<notin> set (map MongoID [frankenstein, black_cat]) \<and>
   driver_oid (third_start 2) \<notin> set (map MongoID [frankenstein, black_cat]) \<and>
   length (filter (by_example (startData ! 0)) [frankenstein, black_cat]) \<le> 1 \<and>
   length (filter (by_example (startData ! 1)) [frankenstein, black_cat]) \<le> 1 \<and>
   length (filter (by_example (startData ! 2)) [frankenstein, black_cat]) \<le> 1 \<and>
   prepareData third_start [frankenstein, black_cat] =
     Inr ([frankenstein, black_cat] @ [vortex\<lparr>MongoID := ''665f1c2ab3d4e5f607182905''\<rparr>]) \<and>
   map (\<lambda>d. d\<lparr>MongoID := NilObjectID\<rparr>) [vortex\<lparr>MongoID := ''665f1c2ab3d4e5f607182905''\<rparr>] =
     filter (\<lambda>f. filter (by_example f) [frankenstein, black_cat] = []) startData \<and>
   (\<forall>i. find_ok (first_start i)) \<and>
   length (filter (by_example (startData ! 0)) seeded) = 1 \<and>
   length (filter (by_example (startData ! 1)) seeded) = 1 \<and>
   length (filter (by_example (startData ! 2)) seeded) = 1 \<and>
   prepareData first_start seeded = Inr seeded \<and>
   prepareData first_start [] = Inr seeded \<and> (\<forall>i. find_ok (second_start i)) \<and>
   prepareData second_start seeded = Inr seeded"
proof -
  have inj: "inj_on (\<lambda>i. driver_oid (third_start i)) {0..<length startData}"
    by (auto simp: inj_on_def startData_def third_start_def split: if_splits)
  have ok: "\<forall>i. find_ok (third_start i) \<and> insert_ok (third_start i)"
    by (simp add: third_start_def quiet_def)
  have freshA: "\<forall>i \<in> {0..<length startData}. driver_oid (third_start i) \<notin> set (map MongoID twins)"
    by (simp add: third_start_def twins_def samples)
  have badA: "\<exists>f \<in> set startData. length (filter (by_example f) twins) > 1"
    by (simp add: startData_def by_example_def twins_def NilObjectID_def samples)
  have freshB: "\<forall>i \<in> {0..<length startData}.
      driver_oid (third_start i) \<notin> set (map MongoID [frankenstein, black_cat])"
    by (simp add: third_start_def samples)
  have leB: "\<forall>f \<in> set startData. length (filter (by_example f) [frankenstein, black_cat]) \<le> 1"
    by (simp add: startData_def by_example_def NilObjectID_def samples)
  have okC: "\<forall>i. find_ok (first_start i)" "\<forall>i. find_ok (second_start i)"
    by (simp_all add: first_start_def second_start_def quiet_def)
  have oneC: "\<forall>f \<in> set startData. length (filter (by_example f) seeded) = 1"
    by (simp add: startData_def by_example_def NilObjectID_def samples)
  note inst = prepareData_idempotent
    [of third_start twins third_start "[frankenstein, black_cat]" first_start seeded
        first_start "[]" seeded first_start second_start]
  from inst ok inj freshA badA have fatal: "prepareData third_start twins = Inl Fatal"
    by blast
  from inst okC oneC have keep: "prepareData first_start seeded = Inr seeded"
    by blast
  from inst okC prepareData_first_start have again: "prepareData second_start seeded = Inr seeded"
    by blast
  have ins: "prepareData third_start [frankenstein, black_cat] =
     Inr ([frankenstein, black_cat] @ [vortex\<lparr>MongoID := ''665f1c2ab3d4e5f607182905''\<rparr>])"
    by (simp add: seed_eval third_start_def samples)
  have strip: "map (\<lambda>d. d\<lparr>MongoID := NilObjectID\<rparr>) [vortex\<lparr>MongoID := ''665f1c2ab3d4e5f607182905''\<rparr>] =
     filter (\<lambda>f. filter (by_example f) [frankenstein, black_cat] = []) startData"
    by (simp add: startData_def by_example_def NilObjectID_def samples)
  have small: "driver_oid (third_start 0) \<notin> set (map MongoID twins) \<and>
   driver_oid (third_start 1) \<notin> set (map MongoID twins) \<and>
   driver_oid (third_start 2) \<notin> set (map MongoID twins) \<and>
   length (filter (by_example (startData ! 1)) twins) > 1 \<and>
   driver_oid (third_start 0) \<notin> set (map MongoID [frankenstein, black_cat]) \<and>
   driver_oid (third_start 1) \<notin> set (map MongoID [frankenstein, black_cat]) \<and>
   driver_oid (third_start 2) \<notin> set (map MongoID [frankenstein, black_cat]) \<and>
   length (filter (by_example (startData ! 0)) [frankenstein, black_cat]) \<le> 1 \<and>
   length (filter (by_example (startData ! 1)) [frankenstein, black_cat]) \<le> 1 \<and>
   length (filter (by_example (startData ! 2)) [frankenstein, black_cat]) \<le> 1 \<and>
   length (filter (by_example (startData ! 0)) seeded) = 1 \<and>
   length (filter (by_example (startData ! 1)) seeded) = 1 \<and>
   length (filter (by_example (startData ! 2)) seeded) = 1"
    by (simp add: startData_def by_example_def NilObjectID_def third_start_def twins_def samples)
  from ok inj fatal ins strip okC keep again prepareData_first_start small
  show ?thesis by blast
qed

text \<open>
  The store of the two closed theorems on duplicate ids below is one the program reaches
  by itself: first start, one \<^verbatim>\<open>PUT\<close> on a fixture, second start.
\<close>

lemma reseeded_reachable:
  "prepareData first_start [] = Inr seeded \<and>
   put_books quiet ''example1'' (Some la_voragine) seeded =
     (JSON StatusOK (book_json (vortex\<lparr>BookName := ''La Voragine''\<rparr>)),
      [vortex\<lparr>BookName := ''La Voragine''\<rparr>, frankenstein, black_cat]) \<and>
   prepareData second_start [vortex\<lparr>BookName := ''La Voragine''\<rparr>, frankenstein, black_cat] =
     Inr reseeded"
proof (intro conjI)
  show "prepareData first_start [] = Inr seeded"
    by (rule prepareData_first_start)
  show "put_books quiet ''example1'' (Some la_voragine) seeded =
     (JSON StatusOK (book_json (vortex\<lparr>BookName := ''La Voragine''\<rparr>)),
      [vortex\<lparr>BookName := ''La Voragine''\<rparr>, frankenstein, black_cat])"
    by (simp add: put_books_def build_updateSet_def string_of_def la_voragine_def UpdateOne_def
        FindOne_def by_id_def samples)
  show "prepareData second_start [vortex\<lparr>BookName := ''La Voragine''\<rparr>, frankenstein, black_cat] =
     Inr reseeded"
    by (simp add: prepareData_def startData_def seed_step_def Find_def InsertOne_def
        by_example_def second_start_def NilObjectID_def reseeded_def samples)
qed

subsection \<open>Creating the same id twice\<close>

lemma post_books_conflict:
  assumes "ID b \<noteq> ''''" and "find_ok e" and "filter (by_id (ID b)) coll \<noteq> []"
  shows "post_books e (Some b) coll =
           (JSON StatusConflict (error_map (''Book with ID '' @ ID b @ '' already exists'')), coll)"
proof -
  from assms(3) obtain d where "List.find (by_id (ID b)) coll = Some d"
    by (cases "List.find (by_id (ID b)) coll") (simp_all add: find_filter_Nil)
  with assms(1,2) show ?thesis
    by (simp add: post_books_def FindOne_def)
qed

lemma post_books_created:
  assumes "ID b \<noteq> ''''" and "find_ok e" and "insert_ok e"
    and "filter (by_id (ID b)) coll = []"
    and "new_oid e \<noteq> NilObjectID" and "new_oid e \<notin> set (map MongoID coll)"
  shows "post_books e (Some b) coll =
           (JSON StatusCreated (book_json (b\<lparr>MongoID := new_oid e\<rparr>)), coll @ [b\<lparr>MongoID := new_oid e\<rparr>])"
proof -
  from assms(4) have "List.find (by_id (ID b)) coll = None"
    by (simp add: find_filter_Nil)
  with assms(1-3,5,6) show ?thesis
    by (simp add: post_books_def FindOne_def InsertOne_def Let_def)
qed

text \<open>
  C3, as the code has it. Two \<^verbatim>\<open>POST /api/books\<close> in sequence with the same non-empty id
  \<open>i\<close>, the store answering and the ObjectID drawn for the first request being new: the
  second request is answered 409, and the collection then holds exactly one document with
  that id provided it held at most one before the first request. The handler only looks
  for some document with the id, it never removes one.
\<close>

theorem post_books_same_id_twice:
  assumes "ID b1 = i" and "ID b2 = i" and "i \<noteq> ''''"
    and "find_ok e1" and "insert_ok e1" and "find_ok e2"
    and "new_oid e1 \<noteq> NilObjectID" and "new_oid e1 \<notin> set (map MongoID coll)"
    and "length (filter (by_id i) coll) \<le> 1"
  shows "status (fst (post_books e2 (Some b2) (snd (post_books e1 (Some b1) coll)))) = StatusConflict \<and>
         length (filter (by_id i)
           (snd (post_books e2 (Some b2) (snd (post_books e1 (Some b1) coll))))) = 1"
proof (cases "filter (by_id i) coll = []")
  case True
  with assms have first: "post_books e1 (Some b1) coll =
      (JSON StatusCreated (book_json (b1\<lparr>MongoID := new_oid e1\<rparr>)), coll @ [b1\<lparr>MongoID := new_oid e1\<rparr>])"
    by (intro post_books_created) simp_all
  have held: "filter (by_id i) (coll @ [b1\<lparr>MongoID := new_oid e1\<rparr>]) = [b1\<lparr>MongoID := new_oid e1\<rparr>]"
    using True assms(1) by (simp add: by_id_def)
  with assms have "post_books e2 (Some b2) (coll @ [b1\<lparr>MongoID := new_oid e1\<rparr>]) =
      (JSON StatusConflict (error_map (''Book with ID '' @ ID b2 @ '' already exists'')),
       coll @ [b1\<lparr>MongoID := new_oid e1\<rparr>])"
    by (intro post_books_conflict) simp_all
  with first held show ?thesis by (simp add: JSON_def)
next
  case False
  with assms have first: "post_books e1 (Some b1) coll =
      (JSON StatusConflict (error_map (''Book with ID '' @ ID b1 @ '' already exists'')), coll)"
    by (intro post_books_conflict) simp_all
  from False assms have "post_books e2 (Some b2) coll =
      (JSON StatusConflict (error_map (''Book with ID '' @ ID b2 @ '' already exists'')), coll)"
    by (intro post_books_conflict) simp_all
  moreover from False assms(9) have "length (filter (by_id i) coll) = 1"
    by (cases "filter (by_id i) coll") simp_all
  ultimately show ?thesis using first by (simp add: JSON_def)
qed

theorem post_books_same_id_twice_witness:
  "ID dracula = ''dracula'' \<and> ID (dracula\<lparr>BookPages := ''460''\<rparr>) = ''dracula'' \<and> ''dracula'' \<noteq> '''' \<and>
   find_ok quiet \<and> insert_ok quiet \<and> new_oid quiet \<noteq> NilObjectID \<and>
   new_oid quiet \<notin> set (map MongoID seeded) \<and> length (filter (by_id ''dracula'') seeded) \<le> 1 \<and>
   status (fst (post_books quiet (Some (dracula\<lparr>BookPages := ''460''\<rparr>))
     (snd (post_books quiet (Some dracula) seeded)))) = StatusConflict \<and>
   length (filter (by_id ''dracula'')
     (snd (post_books quiet (Some (dracula\<lparr>BookPages := ''460''\<rparr>))
       (snd (post_books quiet (Some dracula) seeded))))) = 1"
  using post_books_same_id_twice
    [of dracula "''dracula''" "dracula\<lparr>BookPages := ''460''\<rparr>" quiet quiet seeded]
  by (simp add: dracula_def NilObjectID_def by_id_def samples)

text \<open>
  Without that proviso C3 fails: on the store \<open>reseeded\<close>, which holds two documents with
  the id \<^verbatim>\<open>example1\<close>, both requests are answered 409 and two documents remain.
\<close>

theorem post_books_same_id_twice_duplicates:
  "ID dune = ''example1'' \<and>
   post_books quiet (Some dune) reseeded =
     (JSON StatusConflict (error_map ''Book with ID example1 already exists''), reseeded) \<and>
   length (filter (by_id ''example1'') reseeded) = 2 \<and>
   \<not> (status (fst (post_books quiet (Some dune) (snd (post_books quiet (Some dune) reseeded)))) =
         StatusConflict \<and>
       length (filter (by_id ''example1'')
         (snd (post_books quiet (Some dune) (snd (post_books quiet (Some dune) reseeded))))) = 1)"
  by (simp add: post_books_def FindOne_def by_id_def dune_def nameless_def reseeded_def samples)

subsection \<open>Deleting a book\<close>

lemma find_delete_first:
  "length (filter p xs) = 1 \<Longrightarrow> filter p (delete_first p xs) = []"
  using filter_delete_first [of p xs] by simp

text \<open>
  C7, as the code has it. \<^verbatim>\<open>DELETE /api/books/:id\<close> on an id that exactly one document
  has, the store answering: the response is 200 without a body, afterwards no document has
  the id (\<^verbatim>\<open>FindOne\<close> by that id gives \<^verbatim>\<open>ErrNoDocuments\<close>), and a second \<^verbatim>\<open>DELETE\<close> of the
  id is answered 404 and changes nothing.
\<close>

theorem delete_books_twice:
  assumes "delete_ok e1" and "delete_ok e2" and "length (filter (by_id i) coll) = 1"
  shows "delete_books e1 i coll = (NoContent StatusOK, delete_first (by_id i) coll) \<and>
         FindOne True (by_id i) (snd (delete_books e1 i coll)) = Inl ErrNoDocuments \<and>
         filter (by_id i) (snd (delete_books e1 i coll)) = [] \<and>
         delete_books e2 i (snd (delete_books e1 i coll)) =
           (JSON StatusNotFound (error_map (''Book not found with ID '' @ i)),
            delete_first (by_id i) coll)"
proof -
  from assms(3) have "filter (by_id i) coll \<noteq> []" by auto
  then obtain d where "List.find (by_id i) coll = Some d"
    by (cases "List.find (by_id i) coll") (simp_all add: find_filter_Nil)
  with assms(1) have first: "delete_books e1 i coll = (NoContent StatusOK, delete_first (by_id i) coll)"
    by (simp add: delete_books_def DeleteOne_def)
  from assms(3) have gone: "filter (by_id i) (delete_first (by_id i) coll) = []"
    by (rule find_delete_first)
  then have none: "List.find (by_id i) (delete_first (by_id i) coll) = None"
    by (simp add: find_filter_Nil)
  with assms(2) have "delete_books e2 i (delete_first (by_id i) coll) =
      (JSON StatusNotFound (error_map (''Book not found with ID '' @ i)), delete_first (by_id i) coll)"
    by (simp add: delete_books_def DeleteOne_def)
  with first gone none show ?thesis by (simp add: FindOne_def)
qed

theorem delete_books_twice_witness:
  "delete_ok quiet \<and> length (filter (by_id ''example3'') seeded) = 1 \<and>
   delete_books quiet ''example3'' seeded = (NoContent StatusOK, [vortex, frankenstein]) \<and>
   FindOne True (by_id ''example3'') [vortex, frankenstein] = Inl ErrNoDocuments \<and>
   delete_books quiet ''example3'' [vortex, frankenstein] =
     (JSON StatusNotFound (error_map ''Book not found with ID example3''), [vortex, frankenstein])"
proof -
  have h1: "delete_ok quiet"
    by (simp add: quiet_def)
  have h2: "length (filter (by_id ''example3'') seeded) = 1"
    by (simp add: by_id_def samples)
  have r: "delete_first (by_id ''example3'') seeded = [vortex, frankenstein]"
    by (simp add: by_id_def samples)
  from delete_books_twice [OF h1 h1 h2, unfolded r] h1 h2 show ?thesis
    by auto
qed

text \<open>
  \<^verbatim>\<open>DeleteOne\<close> removes one document only. On the store \<open>reseeded\<close> the id \<^verbatim>\<open>example1\<close> is
  still found after the first \<^verbatim>\<open>DELETE\<close>, and the second \<^verbatim>\<open>DELETE\<close> is not answered 404.
\<close>

theorem delete_books_twice_duplicates:
  "delete_books quiet ''example1'' reseeded =
     (NoContent StatusOK,
      [frankenstein, black_cat, vortex\<lparr>MongoID := ''665f1c2ab3d4e5f607182904''\<rparr>]) \<and>
   FindOne True (by_id ''example1'') (snd (delete_books quiet ''example1'' reseeded)) =
     Inr (vortex\<lparr>MongoID := ''665f1c2ab3d4e5f607182904''\<rparr>) \<and>
   FindOne True (by_id ''example1'') (snd (delete_books quiet ''example1'' reseeded)) \<noteq>
     Inl ErrNoDocuments \<and>
   status (fst (delete_books quiet ''example1'' (snd (delete_books quiet ''example1'' reseeded)))) \<noteq>
     StatusNotFound"
  by (simp add: delete_books_def DeleteOne_def FindOne_def by_id_def NoContent_def reseeded_def samples)

subsection \<open>Listing authors and books\<close>

lemma range_foldl_append_slice:
  "range_slice (foldl (\<lambda>ret x. append_slice ret (f x)) s xs) = range_slice s @ map f xs"
  by (induction xs arbitrary: s)
     (auto simp: range_slice_def append_slice_def split: option.splits)

lemma foldl_append_slice_None:
  "foldl (\<lambda>ret x. append_slice ret (f x)) None xs = (if xs = [] then None else Some (map f xs))"
proof (cases xs)
  case Nil
  then show ?thesis by simp
next
  case (Cons y ys)
  have "foldl (\<lambda>ret x. append_slice ret (f x)) (Some zs) ys = Some (zs @ map f ys)" for zs
    by (induction ys arbitrary: zs) (simp_all add: append_slice_def)
  with Cons show ?thesis by (simp add: append_slice_def)
qed

lemma findAllBooks_answered:
  "findAllBooks True coll = Inr (if coll = [] then None else Some (map book_map coll))"
  by (simp add: findAllBooks_def Find_def every_doc_def foldl_append_slice_None)

lemma author_of_book_map: "string_of (map_of (book_map res) ''author'') = Some (BookAuthor res)"
  by (simp add: book_map_def string_of_def)

lemma authors_keys:
  "distinct (map fst m) \<Longrightarrow>
   distinct (map fst (foldl (\<lambda>m book. case string_of (map_of book ''author'') of
                        Some author \<Rightarrow> AList.update author True m
                      | None \<Rightarrow> m) m (map book_map rs))) \<and>
   set (map fst (foldl (\<lambda>m book. case string_of (map_of book ''author'') of
                        Some author \<Rightarrow> AList.update author True m
                      | None \<Rightarrow> m) m (map book_map rs))) = set (map fst m) \<union> BookAuthor ` set rs"
proof (induction rs arbitrary: m)
  case Nil
  then show ?case by simp
next
  case (Cons r rs)
  have d: "distinct (map fst (AList.update (BookAuthor r) True m))"
    using Cons.prems by (rule distinct_update)
  have s: "set (map fst (AList.update (BookAuthor r) True m)) = insert (BookAuthor r) (set (map fst m))"
    using dom_update [of "BookAuthor r" True m] by simp
  from Cons.IH [OF d] s show ?case
    by (simp add: author_of_book_map)
qed


lemma findAllAuthors_answered:
  "findAllAuthors True order c =
     Inr (foldl (\<lambda>ret author. append_slice ret [(''AuthorName'', JString author)]) None
       (order (map fst (foldl (\<lambda>m book. case string_of (map_of book ''author'') of
                        Some author \<Rightarrow> AList.update author True m
                      | None \<Rightarrow> m) [] (map book_map c)))))"
proof -
  have books: "range_slice (if c = [] then None else Some (map book_map c)) = map book_map c"
    by (simp add: range_slice_def)
  show ?thesis
    unfolding findAllAuthors_def findAllBooks_answered sum.case Let_def books ..
qed

lemma findAllAuthors_names:
  assumes "\<forall>ks. mset (order ks) = mset ks"
  shows "\<exists>ret names. findAllAuthors True order c = Inr ret \<and>
            range_slice ret = map (\<lambda>a. [(''AuthorName'', JString a)]) names \<and>
            distinct names \<and> set names = BookAuthor ` set c"
proof -
  define m where "m = foldl (\<lambda>m book. case string_of (map_of book ''author'') of
                        Some author \<Rightarrow> AList.update author True m
                      | None \<Rightarrow> m) [] (map book_map c)"
  define names where "names = order (map fst m)"
  define ret where
    "ret = foldl (\<lambda>ret author. append_slice ret [(''AuthorName'', JString author)]) None names"
  have run: "findAllAuthors True order c = Inr ret"
    unfolding ret_def names_def m_def by (rule findAllAuthors_answered)
  have keys: "distinct (map fst m) \<and> set (map fst m) = BookAuthor ` set c"
    unfolding m_def using authors_keys [of "[]" c] by simp
  from assms have perm: "mset names = mset (map fst m)"
    unfolding names_def by simp
  from perm have "distinct names \<longleftrightarrow> distinct (map fst m)"
    by (rule mset_eq_imp_distinct_iff)
  with keys have d: "distinct names" by simp
  from perm have "set names = set (map fst m)"
    by (rule mset_eq_setD)
  with keys have s: "set names = BookAuthor ` set c" by simp
  have r: "range_slice ret = map (\<lambda>a. [(''AuthorName'', JString a)]) names"
    unfolding ret_def range_foldl_append_slice by (simp add: range_slice_def)
  from run r d s show ?thesis by blast
qed

text \<open>
  C8. \<^verbatim>\<open>findAllAuthors\<close> on a store that answers, whatever order the runtime ranges over
  the map in (any \<open>order\<close> that permutes the keys): the entries returned are
  \<^verbatim>\<open>{"AuthorName": a}\<close> for a list of names without repetition whose elements are exactly
  the \<open>BookAuthor\<close> values of the collection, so each distinct author string occurs exactly
  once. For three books by \<^verbatim>\<open>A\<close>, \<^verbatim>\<open>B\<close>, \<^verbatim>\<open>A\<close> the entries are, as a multiset, the two
  entries for \<^verbatim>\<open>A\<close> and \<^verbatim>\<open>B\<close>.
\<close>

theorem findAllAuthors_distinct:
  assumes "\<forall>ks. mset (order ks) = mset ks"
  shows "(\<exists>ret names. findAllAuthors True order coll = Inr ret \<and>
            range_slice ret = map (\<lambda>a. [(''AuthorName'', JString a)]) names \<and>
            distinct names \<and> set names = BookAuthor ` set coll) \<and>
         (BookAuthor b1 = ''A'' \<and> BookAuthor b2 = ''B'' \<and> BookAuthor b3 = ''A'' \<longrightarrow>
            (\<exists>ret. findAllAuthors True order [b1, b2, b3] = Inr ret \<and>
               mset (range_slice ret) =
                 {#[(''AuthorName'', JString ''A'')], [(''AuthorName'', JString ''B'')]#}))"
proof (intro conjI impI)
  show "\<exists>ret names. findAllAuthors True order coll = Inr ret \<and>
            range_slice ret = map (\<lambda>a. [(''AuthorName'', JString a)]) names \<and>
            distinct names \<and> set names = BookAuthor ` set coll"
    using assms by (rule findAllAuthors_names)
next
  assume a: "BookAuthor b1 = ''A'' \<and> BookAuthor b2 = ''B'' \<and> BookAuthor b3 = ''A''"
  from findAllAuthors_names [OF assms, of "[b1, b2, b3]"] obtain ret names where
    run: "findAllAuthors True order [b1, b2, b3] = Inr ret"
    and r: "range_slice ret = map (\<lambda>a. [(''AuthorName'', JString a)]) names"
    and d: "distinct names" and s: "set names = BookAuthor ` set [b1, b2, b3]"
    by blast
  from s a have ab: "set names = set [''A'', ''B'']" by auto
  have "distinct [''A'', ''B'']" by simp
  with d have "(set names = set [''A'', ''B'']) = (mset names = mset [''A'', ''B''])"
    by (rule set_eq_iff_mset_eq_distinct)
  with ab have "mset names = mset [''A'', ''B'']" by (rule iffD1 [rotated])
  then have "image_mset (\<lambda>a. [(''AuthorName'', JString a)]) (mset names) =
             image_mset (\<lambda>a. [(''AuthorName'', JString a)]) (mset [''A'', ''B''])"
    by (rule arg_cong)
  then have "mset (range_slice ret) =
      {#[(''AuthorName'', JString ''A'')], [(''AuthorName'', JString ''B'')]#}"
    by (simp add: r)
  with run show "\<exists>ret. findAllAuthors True order [b1, b2, b3] = Inr ret \<and>
               mset (range_slice ret) =
                 {#[(''AuthorName'', JString ''A'')], [(''AuthorName'', JString ''B'')]#}"
    by blast
qed

theorem findAllAuthors_distinct_witness:
  "(\<forall>ks. mset (rev ks) = mset (ks :: string list)) \<and>
   findAllAuthors True rev three_books =
     Inr (Some [[(''AuthorName'', JString ''B'')], [(''AuthorName'', JString ''A'')]]) \<and>
   BookAuthor (three_books ! 0) = ''A'' \<and> BookAuthor (three_books ! 1) = ''B'' \<and>
   BookAuthor (three_books ! 2) = ''A'' \<and>
   (\<exists>ret. findAllAuthors True rev [three_books ! 0, three_books ! 1, three_books ! 2] = Inr ret \<and>
      mset (range_slice ret) =
        {#[(''AuthorName'', JString ''A'')], [(''AuthorName'', JString ''B'')]#})"
proof -
  have h: "\<forall>ks. mset (rev ks) = mset (ks :: string list)" by simp
  have run: "findAllAuthors True rev three_books =
     Inr (Some [[(''AuthorName'', JString ''B'')], [(''AuthorName'', JString ''A'')]])"
    unfolding findAllAuthors_answered
    by (simp add: three_books_def append_slice_def book_map_def string_of_def)
  have a: "BookAuthor (three_books ! 0) = ''A'' \<and> BookAuthor (three_books ! 1) = ''B'' \<and>
     BookAuthor (three_books ! 2) = ''A''"
    by (simp add: three_books_def)
  from findAllAuthors_distinct [OF h, of three_books "three_books ! 0" "three_books ! 1" "three_books ! 2"]
    a have "\<exists>ret. findAllAuthors True rev [three_books ! 0, three_books ! 1, three_books ! 2] = Inr ret \<and>
      mset (range_slice ret) =
        {#[(''AuthorName'', JString ''A'')], [(''AuthorName'', JString ''B'')]#}"
    by blast
  with h run a show ?thesis by (intro conjI) simp_all
qed

text \<open>
  C9 at the empty collection. \<^verbatim>\<open>findAllBooks\<close> appends to \<^verbatim>\<open>var ret\<close>, which stays the nil
  slice when there is no document, and \<^verbatim>\<open>c.JSON\<close> encodes the nil slice as \<^verbatim>\<open>null\<close>: the
  response is 200 with the body \<^verbatim>\<open>null\<close>, not the array \<^verbatim>\<open>[]\<close>.
\<close>

theorem get_books_empty:
  "get_books quiet [] = Inr (JSON StatusOK JNull)"
  by (simp add: get_books_def findAllBooks_def Find_def quiet_def slice_json_def)

text \<open>
  On every other collection the response is what C9 says: 200 and an array with one
  object per document, in the order of the collection, each with the six wire keys and
  the stored values.
\<close>

lemma get_books_some:
  assumes "find_ok e" and "coll \<noteq> []"
  shows "get_books e coll = Inr (JSON StatusOK (JArray (map (\<lambda>res. JObject (book_map res)) coll)))"
  using assms
  by (simp add: get_books_def findAllBooks_def Find_def every_doc_def foldl_append_slice_None
      slice_json_def comp_def)

end
